theory Spec2Isabelle
  imports Main "HOL-Library.AList" "HOL-Library.Multiset"
begin

section \<open>Python strings\<close>

text \<open>
  A Python \<open>str\<close> is modelled as a \<open>string\<close>: a list of characters, each standing for a
  code point below 256 (Latin-1), so that \<open>length\<close> is Python's \<open>len\<close>. The string
  methods the two scripts call are written out for that range.
\<close>

definition isspace :: "char \<Rightarrow> bool" where
  \<comment> \<open>\<open>str.isspace\<close> on one character; also the class \<open>\s\<close> of \<open>re\<close> on a \<open>str\<close> pattern\<close>
  "isspace c =
     (let n = (of_char c :: nat)
      in (9 \<le> n \<and> n \<le> 13) \<or> (28 \<le> n \<and> n \<le> 32) \<or> n = 133 \<or> n = 160)"

definition strip :: "string \<Rightarrow> string" where
  \<comment> \<open>\<open>s.strip()\<close>\<close>
  "strip s = rev (dropWhile isspace (rev (dropWhile isspace s)))"

definition strip_chars :: "string \<Rightarrow> string \<Rightarrow> string" where
  \<comment> \<open>\<open>s.strip(chars)\<close>\<close>
  "strip_chars chars s =
     rev (dropWhile (\<lambda>c. c \<in> set chars) (rev (dropWhile (\<lambda>c. c \<in> set chars) s)))"

definition lower_char :: "char \<Rightarrow> char" where
  "lower_char c =
     (let n = (of_char c :: nat)
      in if (65 \<le> n \<and> n \<le> 90) \<or> (192 \<le> n \<and> n \<le> 222 \<and> n \<noteq> 215)
         then char_of (n + 32) else c)"

definition lower :: "string \<Rightarrow> string" where
  \<comment> \<open>\<open>s.lower()\<close>\<close>
  "lower s = map lower_char s"

fun replace_scan :: "string \<Rightarrow> string \<Rightarrow> nat \<Rightarrow> string \<Rightarrow> string" where
  "replace_scan old new skip [] = []"
| "replace_scan old new skip (c # cs) =
     (if 0 < skip then replace_scan old new (skip - 1) cs
      else if take (length old) (c # cs) = old
           then new @ replace_scan old new (length old - 1) cs
      else c # replace_scan old new 0 cs)"

definition replace :: "string \<Rightarrow> string \<Rightarrow> string \<Rightarrow> string" where
  \<comment> \<open>\<open>s.replace(old, new)\<close>: every occurrence, left to right, without overlap\<close>
  "replace old new s =
     (if old = [] then new @ concat (map (\<lambda>c. c # new) s) else replace_scan old new 0 s)"

section \<open>linkedin\_contacts.py\<close>

subsection \<open>The domain label\<close>

definition domain_label :: "string \<Rightarrow> string" where
  \<comment> \<open>lines 63 to 66 of \<open>parse_linkedin_export\<close>\<close>
  "domain_label company =
     (if company \<noteq> []
      then take 20 (replace '','' [] (replace '' '' [] (lower company)))
      else [])"

definition spec_domain_label :: "string \<Rightarrow> string" where
  \<comment> \<open>the specification's words: lowercase, remove spaces and commas, truncate to 20\<close>
  "spec_domain_label company =
     take 20 (filter (\<lambda>c. c \<noteq> CHR '' '' \<and> c \<noteq> CHR '','') (lower company))"

subsection \<open>Rows of \<open>csv.DictReader\<close>\<close>

text \<open>
  \<open>csv.DictReader\<close> hands \<open>parse_linkedin_export\<close> one dict per non-blank record: the
  header's field names zipped with the record's fields, and \<open>None\<close> (its \<open>restval\<close>) under
  every field name the record is too short for. Fields beyond the header go under the key
  \<open>None\<close>, which the script never looks up, so the model leaves them out.
\<close>

datatype pyval = PyNone | PyStr string

type_synonym pyrow = "string \<rightharpoonup> pyval"

datatype py_error = AttributeError | TypeError | HeaderParseError | LookupError | IMAPError

definition dict_row :: "string list \<Rightarrow> string list \<Rightarrow> pyrow" where
  "dict_row fieldnames fields =
     (let d = foldl (\<lambda>m (k, v). m(k \<mapsto> PyStr v)) Map.empty (zip fieldnames fields)
      in if length fields < length fieldnames
         then foldl (\<lambda>m k. m(k \<mapsto> PyNone)) d (drop (length fields) fieldnames)
         else d)"

definition DictReader :: "string list \<Rightarrow> string list list \<Rightarrow> pyrow list" where
  \<comment> \<open>the rows read after the header row; a blank record (no field at all) is skipped\<close>
  "DictReader fieldnames records = map (dict_row fieldnames) (filter (\<lambda>r. r \<noteq> []) records)"

definition row_get :: "pyrow \<Rightarrow> string \<Rightarrow> pyval \<Rightarrow> pyval" where
  \<comment> \<open>\<open>row.get(key, default)\<close>\<close>
  "row_get row k d = (case row k of None \<Rightarrow> d | Some v \<Rightarrow> v)"

definition strip_val :: "pyval \<Rightarrow> py_error + string" where
  \<comment> \<open>\<open>v.strip()\<close>: \<open>None\<close> has no such attribute\<close>
  "strip_val v = (case v of PyNone \<Rightarrow> Inl AttributeError | PyStr s \<Rightarrow> Inr (strip s))"

definition bind_err :: "'e + 'a \<Rightarrow> ('a \<Rightarrow> 'e + 'b) \<Rightarrow> 'e + 'b" where
  \<comment> \<open>statements in sequence: the first exception ends them\<close>
  "bind_err r f = (case r of Inl e \<Rightarrow> Inl e | Inr x \<Rightarrow> f x)"

subsection \<open>\<open>parse_linkedin_export\<close>: the loop over the rows\<close>

record li_contact =
  li_name :: string
  li_first_name :: string
  li_last_name :: string
  li_email :: string
  li_company :: string
  li_position :: string
  li_domain :: string
  li_connected_on :: string
  li_linkedin_url :: string
  li_source :: string

definition LI_FORMATS :: "string list" where
  "LI_FORMATS = [''%d %b %Y'', ''%b %d, %Y'', ''%Y-%m-%d'', ''%m/%d/%Y'']"

text \<open>
  \<open>datetime.strptime\<close> and \<open>isoformat\<close> are the library's and are parameters of the model:
  \<open>strptime s fmt\<close> is \<open>None\<close> where the library raises \<open>ValueError\<close>, the one exception it
  raises on a string. The loop over the patterns stops at the first that parses.
\<close>

fun try_formats :: "(string \<Rightarrow> string \<Rightarrow> 'd option) \<Rightarrow> string \<Rightarrow> string list \<Rightarrow> 'd option" where
  "try_formats strptime s [] = None"
| "try_formats strptime s (fmt # fmts) =
     (case strptime s fmt of Some d \<Rightarrow> Some d | None \<Rightarrow> try_formats strptime s fmts)"

definition parse_connection_date :: "(string \<Rightarrow> string \<Rightarrow> 'd option) \<Rightarrow> string \<Rightarrow> 'd option" where
  \<comment> \<open>lines 53 to 60\<close>
  "parse_connection_date strptime connected_on =
     (if connected_on \<noteq> [] then try_formats strptime connected_on LI_FORMATS else None)"

definition connected_on_out :: "(string \<Rightarrow> string \<Rightarrow> 'd option) \<Rightarrow> ('d \<Rightarrow> string) \<Rightarrow> string \<Rightarrow> string" where
  \<comment> \<open>line 76: \<open>conn_date.isoformat() if conn_date else connected_on\<close>\<close>
  "connected_on_out strptime isoformat connected_on =
     (case parse_connection_date strptime connected_on of
        Some d \<Rightarrow> isoformat d
      | None \<Rightarrow> connected_on)"

definition parse_row ::
  "(string \<Rightarrow> string \<Rightarrow> 'd option) \<Rightarrow> ('d \<Rightarrow> string) \<Rightarrow> pyrow \<Rightarrow> py_error + li_contact option" where
  \<comment> \<open>the body of the loop, lines 38 to 79; \<open>Inr None\<close> is the \<open>continue\<close> of line 48\<close>
  "parse_row strptime isoformat row =
     bind_err (strip_val (row_get row ''First Name'' (row_get row ''first_name'' (PyStr [])))) (\<lambda>first_name.
     bind_err (strip_val (row_get row ''Last Name'' (row_get row ''last_name'' (PyStr [])))) (\<lambda>last_name.
     bind_err (strip_val (row_get row ''Email Address''
                 (row_get row ''Email'' (row_get row ''email'' (PyStr []))))) (\<lambda>email.
     bind_err (strip_val (row_get row ''Company'' (row_get row ''company'' (PyStr [])))) (\<lambda>company.
     bind_err (strip_val (row_get row ''Position'' (row_get row ''position'' (PyStr [])))) (\<lambda>position.
     bind_err (strip_val (row_get row ''Connected On'' (row_get row ''connected_on'' (PyStr [])))) (\<lambda>connected_on.
     bind_err (strip_val (row_get row ''URL''
                 (row_get row ''Profile URL'' (row_get row ''url'' (PyStr []))))) (\<lambda>url.
       if first_name = [] \<and> last_name = [] then Inr None
       else Inr (Some \<lparr>
         li_name = strip (first_name @ '' '' @ last_name),
         li_first_name = first_name,
         li_last_name = last_name,
         li_email = email,
         li_company = company,
         li_position = position,
         li_domain = domain_label company,
         li_connected_on = connected_on_out strptime isoformat connected_on,
         li_linkedin_url = url,
         li_source = ''linkedin'' \<rparr>))))))))"

fun parse_rows ::
  "(string \<Rightarrow> string \<Rightarrow> 'd option) \<Rightarrow> ('d \<Rightarrow> string) \<Rightarrow> pyrow list \<Rightarrow> li_contact list
     \<Rightarrow> py_error + li_contact list" where
  "parse_rows strptime isoformat [] contacts = Inr contacts"
| "parse_rows strptime isoformat (row # rows) contacts =
     (case parse_row strptime isoformat row of
        Inl e \<Rightarrow> Inl e
      | Inr None \<Rightarrow> parse_rows strptime isoformat rows contacts
      | Inr (Some c) \<Rightarrow> parse_rows strptime isoformat rows (contacts @ [c]))"

definition parse_linkedin_rows ::
  "(string \<Rightarrow> string \<Rightarrow> 'd option) \<Rightarrow> ('d \<Rightarrow> string) \<Rightarrow> pyrow list \<Rightarrow> py_error + li_contact list" where
  \<comment> \<open>\<open>contacts = []\<close>, the loop, \<open>return contacts\<close>; an exception of the loop is not caught\<close>
  "parse_linkedin_rows strptime isoformat rows = parse_rows strptime isoformat rows []"

definition li_fields :: "pyrow \<Rightarrow> pyval list" where
  \<comment> \<open>the seven values that lines 39 to 45 resolve, before \<open>strip\<close>\<close>
  "li_fields row =
     [row_get row ''First Name'' (row_get row ''first_name'' (PyStr [])),
      row_get row ''Last Name'' (row_get row ''last_name'' (PyStr [])),
      row_get row ''Email Address'' (row_get row ''Email'' (row_get row ''email'' (PyStr []))),
      row_get row ''Company'' (row_get row ''company'' (PyStr [])),
      row_get row ''Position'' (row_get row ''position'' (PyStr [])),
      row_get row ''Connected On'' (row_get row ''connected_on'' (PyStr [])),
      row_get row ''URL'' (row_get row ''Profile URL'' (row_get row ''url'' (PyStr [])))]"

text \<open>
  A stand-in for \<open>strptime\<close> and \<open>isoformat\<close> in examples: a table with the dates the
  examples use, a date being its year, month and day.
\<close>

definition example_strptime :: "string \<Rightarrow> string \<Rightarrow> (nat \<times> nat \<times> nat) option" where
  "example_strptime s fmt =
     (if s = ''2024-01-15'' \<and> fmt = ''%Y-%m-%d'' then Some (2024, 1, 15)
      else if s = ''15 Jan 2024'' \<and> fmt = ''%d %b %Y'' then Some (2024, 1, 15)
      else None)"

definition example_isoformat :: "(nat \<times> nat \<times> nat) \<Rightarrow> string" where
  "example_isoformat d = (if d = (2024, 1, 15) then ''2024-01-15T00:00:00'' else [])"

definition example_row :: pyrow where
  "example_row = dict_row [''First Name'', ''Connected On''] [''Ada'', '' 15 Jan 2024 '']"

definition example_li_contact :: li_contact where
  "example_li_contact =
     \<lparr> li_name = ''Ada'', li_first_name = ''Ada'', li_last_name = [], li_email = [],
       li_company = [], li_position = [], li_domain = [],
       li_connected_on = ''2024-01-15T00:00:00'', li_linkedin_url = [],
       li_source = ''linkedin'' \<rparr>"

section \<open>extract\_contacts.py\<close>

subsection \<open>Dates\<close>

text \<open>
  A \<open>datetime\<close> is naive (no time zone: its wall-clock time, a number on a fixed scale) or
  aware (wall-clock time and offset from UTC). Python orders two naive values by wall-clock
  time and two aware values by their UTC instants; ordering a naive against an aware value
  raises \<open>TypeError\<close>. A \<open>datetime\<close> is always true in a condition.
\<close>

datatype datetime = Naive int | Aware int int

fun dt_lt :: "datetime \<Rightarrow> datetime \<Rightarrow> py_error + bool" where
  "dt_lt (Naive x) (Naive y) = Inr (x < y)"
| "dt_lt (Aware x ox) (Aware y oy) = Inr (x - ox < y - oy)"
| "dt_lt (Naive x) (Aware y oy) = Inl TypeError"
| "dt_lt (Aware x ox) (Naive y) = Inl TypeError"

definition dt_gt :: "datetime \<Rightarrow> datetime \<Rightarrow> py_error + bool" where
  "dt_gt a b = dt_lt b a"

fun dt_le :: "datetime \<Rightarrow> datetime \<Rightarrow> py_error + bool" where
  "dt_le (Naive x) (Naive y) = Inr (x \<le> y)"
| "dt_le (Aware x ox) (Aware y oy) = Inr (x - ox \<le> y - oy)"
| "dt_le (Naive x) (Aware y oy) = Inl TypeError"
| "dt_le (Aware x ox) (Naive y) = Inl TypeError"

subsection \<open>The library\<close>

text \<open>
  The functions of Python's library that the script calls and that are not written out
  here are fields of a record the model takes as a parameter: \<open>email.header.decode_header\<close>
  (which raises \<open>HeaderParseError\<close> on a malformed encoded word), \<open>bytes.decode\<close> with
  \<open>errors='replace'\<close> (which raises \<open>LookupError\<close> on an unknown encoding),
  \<open>email.utils.parseaddr\<close>, \<open>datetime.strptime\<close> (\<open>None\<close> for its \<open>ValueError\<close>) and
  \<open>datetime.isoformat\<close>.
\<close>

datatype part = Bytes string | Str string

record pylib =
  lib_decode_header :: "string \<Rightarrow> py_error + (part \<times> string option) list"
  lib_bytes_decode :: "string \<Rightarrow> string \<Rightarrow> py_error + string"
  lib_parseaddr :: "string \<Rightarrow> string \<times> string"
  lib_strptime :: "string \<Rightarrow> string \<Rightarrow> datetime option"
  lib_isoformat :: "datetime \<Rightarrow> string"

subsection \<open>\<open>_decode_header_value\<close> and \<open>_parse_email_addresses\<close>\<close>

definition DQUOTE :: char where
  "DQUOTE = CHR 0x22"

definition SQUOTE :: char where
  "SQUOTE = CHR 0x27"

fun join :: "string \<Rightarrow> string list \<Rightarrow> string" where
  "join sep [] = []"
| "join sep [x] = x"
| "join sep (x # y # ys) = x @ sep @ join sep (y # ys)"

definition decode_part :: "pylib \<Rightarrow> part \<times> string option \<Rightarrow> py_error + string" where
  \<comment> \<open>lines 98 to 104: the body of the loop\<close>
  "decode_part lib pe =
     (case fst pe of
        Bytes b \<Rightarrow>
          (case lib_bytes_decode lib b
                  (case snd pe of None \<Rightarrow> ''utf-8'' | Some e \<Rightarrow> if e = [] then ''utf-8'' else e) of
             Inr s \<Rightarrow> Inr s
           | Inl e \<Rightarrow> lib_bytes_decode lib b ''utf-8'')
      | Str s \<Rightarrow> Inr s)"

fun decode_parts :: "pylib \<Rightarrow> (part \<times> string option) list \<Rightarrow> py_error + string list" where
  "decode_parts lib [] = Inr []"
| "decode_parts lib (pe # rest) =
     bind_err (decode_part lib pe) (\<lambda>s.
     bind_err (decode_parts lib rest) (\<lambda>result. Inr (s # result)))"

definition decode_header_value :: "pylib \<Rightarrow> string \<Rightarrow> py_error + string" where
  "decode_header_value lib v =
     (if v = [] then Inr []
      else bind_err (lib_decode_header lib v) (\<lambda>decoded_parts.
           bind_err (decode_parts lib decoded_parts) (\<lambda>result. Inr (join '' '' result))))"

text \<open>
  Line 117 splits with \<open>re.split\<close> on the pattern \<^verbatim>\<open>,(?=(?:[^"]*"[^"]*")*[^"]*$)\<close>: a
  comma, then a lookahead that reads pairs of double quotes up to the end of the string.
  \<open>lookahead\<close> runs that lookahead on the rest of the string (its flag says whether a quote
  is waiting for its partner), and \<open>re_split\<close> cuts at every comma where it succeeds.
\<close>

fun scan_quotes :: "bool \<Rightarrow> string \<Rightarrow> bool" where
  "scan_quotes opened [] = (\<not> opened)"
| "scan_quotes opened (c # cs) = scan_quotes (if c = DQUOTE then \<not> opened else opened) cs"

definition lookahead :: "string \<Rightarrow> bool" where
  "lookahead s = scan_quotes False s"

fun re_split :: "string \<Rightarrow> string list" where
  "re_split [] = [[]]"
| "re_split (c # cs) =
     (if c = CHR '','' \<and> lookahead cs then [] # re_split cs
      else (case re_split cs of [] \<Rightarrow> [[c]] | p # ps \<Rightarrow> (c # p) # ps))"

fun collect_addresses :: "pylib \<Rightarrow> string list \<Rightarrow> (string \<times> string) list" where
  \<comment> \<open>lines 119 to 124\<close>
  "collect_addresses lib [] = []"
| "collect_addresses lib (p # parts) =
     (let na = lib_parseaddr lib (strip p); addr = snd na
      in if addr \<noteq> [] \<and> CHR ''@'' \<in> set addr
         then (strip_chars [SQUOTE] (strip_chars [DQUOTE] (strip (fst na))), strip (lower addr))
                # collect_addresses lib parts
         else collect_addresses lib parts)"

definition parse_email_addresses :: "pylib \<Rightarrow> string \<Rightarrow> py_error + (string \<times> string) list" where
  "parse_email_addresses lib header_value =
     (if header_value = [] then Inr []
      else bind_err (decode_header_value lib header_value) (\<lambda>decoded.
           Inr (collect_addresses lib (re_split decoded))))"




subsection \<open>\<open>_update_contact\<close>\<close>

record contact =
  name :: string
  email :: string
  sent_count :: int
  received_count :: int
  first_seen :: "datetime option"
  last_seen :: "datetime option"
  domains :: "string list"

text \<open>
  \<open>self.contacts\<close> is a \<open>defaultdict\<close>; a dict keeps its keys in the order of their
  insertion, so it is a list of pairs with distinct keys. The set \<open>domains\<close> is a list
  without repetition.
\<close>

type_synonym contacts = "(string \<times> contact) list"

definition default_contact :: contact where
  "default_contact =
     \<lparr> name = [], email = [], sent_count = 0, received_count = 0,
       first_seen = None, last_seen = None, domains = [] \<rparr>"

definition getitem :: "contacts \<Rightarrow> string \<Rightarrow> contact" where
  \<comment> \<open>\<open>self.contacts[k]\<close>: the entry, or the default that the lookup inserts\<close>
  "getitem cs k = (case map_of cs k of None \<Rightarrow> default_contact | Some c \<Rightarrow> c)"

definition set_add :: "'a \<Rightarrow> 'a list \<Rightarrow> 'a list" where
  "set_add x xs = (if x \<in> set xs then xs else xs @ [x])"

definition last_segment :: "char \<Rightarrow> string \<Rightarrow> string" where
  \<comment> \<open>\<open>s.split(sep)[-1]\<close> for a separator of one character\<close>
  "last_segment sep s = rev (takeWhile (\<lambda>c. c \<noteq> sep) (rev s))"

definition update_dates :: "contact \<Rightarrow> datetime option \<Rightarrow> contact \<times> py_error option" where
  \<comment> \<open>lines 150 to 154; with an exception, the contact as it stands when it is raised\<close>
  "update_dates c date =
     (case date of
        None \<Rightarrow> (c, None)
      | Some d \<Rightarrow>
          (case (case first_seen c of None \<Rightarrow> Inr True | Some f \<Rightarrow> dt_lt d f) of
             Inl e \<Rightarrow> (c, Some e)
           | Inr b1 \<Rightarrow>
               (let c1 = (if b1 then c\<lparr>first_seen := Some d\<rparr> else c)
                in case (case last_seen c1 of None \<Rightarrow> Inr True | Some l \<Rightarrow> dt_gt d l) of
                     Inl e \<Rightarrow> (c1, Some e)
                   | Inr b2 \<Rightarrow> (if b2 then c1\<lparr>last_seen := Some d\<rparr> else c1, None))))"

definition keep_best_name :: "contact \<Rightarrow> string \<Rightarrow> contact" where
  \<comment> \<open>lines 139 to 141\<close>
  "keep_best_name c new_name =
     (if new_name \<noteq> [] \<and> (name c = [] \<or> length (name c) < length new_name)
      then c\<lparr>name := new_name\<rparr> else c)"

definition update_counts :: "contact \<Rightarrow> bool \<Rightarrow> contact" where
  \<comment> \<open>lines 143 to 147\<close>
  "update_counts c is_sent =
     (if is_sent then c\<lparr>sent_count := sent_count c + 1\<rparr>
      else c\<lparr>received_count := received_count c + 1\<rparr>)"

definition track_domain :: "contact \<Rightarrow> string \<Rightarrow> contact" where
  \<comment> \<open>lines 156 to 158\<close>
  "track_domain c email_lower =
     c\<lparr>domains := set_add (last_segment CHR ''@'' email_lower) (domains c)\<rparr>"

definition update_contact ::
  "string \<Rightarrow> contacts \<Rightarrow> string \<Rightarrow> string \<Rightarrow> datetime option \<Rightarrow> bool
     \<Rightarrow> contacts \<times> py_error option" where
  \<comment> \<open>\<open>owner\<close> is \<open>self.email_address\<close>; the result is the dict after the call and the
      exception that ended it, if one did\<close>
  "update_contact owner cs new_name email_addr date is_sent =
     (let email_lower = lower email_addr
      in if email_lower = lower owner then (cs, None)
         else
           (let c = update_counts
                      (keep_best_name ((getitem cs email_lower)\<lparr>email := email_lower\<rparr>) new_name)
                      is_sent
            in case update_dates c date of
                 (c', Some e) \<Rightarrow> (AList.update email_lower c' cs, Some e)
               | (c', None) \<Rightarrow> (AList.update email_lower (track_domain c' email_lower) cs, None)))"

text \<open>
  The aggregator fed a sequence of observations, one call each. An exception of a call
  is caught by the scan (line 246), which goes on with the dict as the call left it.
\<close>

type_synonym observation = "string \<times> string \<times> datetime option \<times> bool"

fun run_updates :: "string \<Rightarrow> contacts \<Rightarrow> observation list \<Rightarrow> contacts" where
  "run_updates owner cs [] = cs"
| "run_updates owner cs (ob # obs) =
     run_updates owner
       (fst (update_contact owner cs (fst ob) (fst (snd ob)) (fst (snd (snd ob))) (snd (snd (snd ob)))))
       obs"

subsection \<open>\<open>_parse_date\<close>\<close>

definition MAIL_FORMATS :: "string list" where
  "MAIL_FORMATS =
     [''%a, %d %b %Y %H:%M:%S %z'', ''%d %b %Y %H:%M:%S %z'',
      ''%a, %d %b %Y %H:%M:%S'', ''%d %b %Y %H:%M:%S'']"

text \<open>
  Line 166 deletes what the pattern \<^verbatim>\<open>\s*\([^)]+\)\s*$\<close> matches. \<open>tz_comment_at s\<close> says
  that the pattern matches at the start of \<open>s\<close> (it then runs to the end of \<open>s\<close>), and
  \<open>re_sub_tz\<close> looks for the leftmost match as \<open>re.sub\<close> does.
\<close>

definition tz_comment_at :: "string \<Rightarrow> bool" where
  "tz_comment_at s =
     (case dropWhile isspace s of
        [] \<Rightarrow> False
      | c # r \<Rightarrow>
          c = CHR ''(''
          \<and> takeWhile (\<lambda>x. x \<noteq> CHR '')'') r \<noteq> []
          \<and> (case dropWhile (\<lambda>x. x \<noteq> CHR '')'') r of
                [] \<Rightarrow> False
              | close # rest \<Rightarrow> list_all isspace rest))"

fun re_sub_tz :: "string \<Rightarrow> string" where
  "re_sub_tz [] = []"
| "re_sub_tz (c # cs) = (if tz_comment_at (c # cs) then [] else c # re_sub_tz cs)"

definition parse_date :: "pylib \<Rightarrow> string \<Rightarrow> datetime option" where
  \<comment> \<open>\<open>None\<close> is Python's \<open>None\<close>; no statement of the body raises anything but the
      \<open>ValueError\<close> of \<open>strptime\<close>, which the loop catches\<close>
  "parse_date lib date_str =
     (if date_str = [] then None
      else try_formats (lib_strptime lib) (strip (re_sub_tz date_str)) MAIL_FORMATS)"

subsection \<open>\<open>scan_folder\<close>\<close>

type_synonym message = "string \<rightharpoonup> string"

definition msg_get :: "message \<Rightarrow> string \<Rightarrow> string \<Rightarrow> string" where
  \<comment> \<open>\<open>msg.get(header, default)\<close>\<close>
  "msg_get msg h d = (case msg h of None \<Rightarrow> d | Some v \<Rightarrow> v)"

fun update_each ::
  "string \<Rightarrow> contacts \<Rightarrow> (string \<times> string) list \<Rightarrow> datetime option \<Rightarrow> bool
     \<Rightarrow> contacts \<times> py_error option" where
  \<comment> \<open>\<open>for name, addr in pairs: self._update_contact(name, addr, date, is_sent)\<close>\<close>
  "update_each owner cs [] date is_sent = (cs, None)"
| "update_each owner cs (na # pairs) date is_sent =
     (case update_contact owner cs (fst na) (snd na) date is_sent of
        (cs', Some e) \<Rightarrow> (cs', Some e)
      | (cs', None) \<Rightarrow> update_each owner cs' pairs date is_sent)"

definition process_message ::
  "pylib \<Rightarrow> string \<Rightarrow> contacts \<Rightarrow> message \<Rightarrow> contacts \<times> py_error option" where
  \<comment> \<open>lines 233 to 242, for a message whose headers were fetched\<close>
  "process_message lib owner cs msg =
     (let date = parse_date lib (msg_get msg ''Date'' [])
      in case parse_email_addresses lib (msg_get msg ''From'' []) of
           Inl e \<Rightarrow> (cs, Some e)
         | Inr from_pairs \<Rightarrow>
        (case update_each owner cs from_pairs date False of
           (cs1, Some e) \<Rightarrow> (cs1, Some e)
         | (cs1, None) \<Rightarrow>
        (case parse_email_addresses lib (msg_get msg ''To'' []) of
           Inl e \<Rightarrow> (cs1, Some e)
         | Inr to_pairs \<Rightarrow>
        (case update_each owner cs1 to_pairs date True of
           (cs2, Some e) \<Rightarrow> (cs2, Some e)
         | (cs2, None) \<Rightarrow>
        (case parse_email_addresses lib (msg_get msg ''Cc'' []) of
           Inl e \<Rightarrow> (cs2, Some e)
         | Inr cc_pairs \<Rightarrow> update_each owner cs2 cc_pairs date True)))))"

datatype fetched = FetchRaises py_error | FetchNotOK | Fetched message

fun scan_messages ::
  "pylib \<Rightarrow> string \<Rightarrow> contacts \<Rightarrow> nat \<Rightarrow> fetched list \<Rightarrow> contacts \<times> nat" where
  \<comment> \<open>the loop of lines 220 to 247: a message that raises is skipped where it stands\<close>
  "scan_messages lib owner cs scanned [] = (cs, scanned)"
| "scan_messages lib owner cs scanned (f # fs) =
     (case f of
        FetchRaises e \<Rightarrow> scan_messages lib owner cs scanned fs
      | FetchNotOK \<Rightarrow> scan_messages lib owner cs scanned fs
      | Fetched msg \<Rightarrow>
          (case process_message lib owner cs msg of
             (cs', Some e) \<Rightarrow> scan_messages lib owner cs' scanned fs
           | (cs', None) \<Rightarrow> scan_messages lib owner cs' (scanned + 1) fs))"

text \<open>
  The mail session, as the scan sees it: what \<open>select\<close>, \<open>search\<close> and \<open>fetch\<close> answer for
  a folder (\<open>Inl\<close> when the call raises).
\<close>

record session =
  imap_select :: "string \<Rightarrow> py_error + string"
  imap_search :: "string \<Rightarrow> py_error + string \<times> string list"
  imap_fetch :: "string \<Rightarrow> string \<Rightarrow> fetched"

fun contains :: "string \<Rightarrow> string \<Rightarrow> bool" where
  \<comment> \<open>\<open>sub in s\<close>\<close>
  "contains sub [] = (sub = [])"
| "contains sub (c # cs) = (take (length sub) (c # cs) = sub \<or> contains sub cs)"

definition slice_from :: "int \<Rightarrow> 'a list \<Rightarrow> 'a list" where
  \<comment> \<open>\<open>xs[start:]\<close>\<close>
  "slice_from start xs =
     (let n = int (length xs);
          i = (if start < 0 then max 0 (start + n) else min start n)
      in drop (nat i) xs)"

definition scan_folder ::
  "pylib \<Rightarrow> session \<Rightarrow> string \<Rightarrow> contacts \<Rightarrow> string \<Rightarrow> int option
     \<Rightarrow> py_error + contacts \<times> nat" where
  "scan_folder lib sess owner cs folder limit =
     (case imap_select sess folder of
        Inl e \<Rightarrow> Inr (cs, 0)
      | Inr status \<Rightarrow>
          if status \<noteq> ''OK'' then Inr (cs, 0)
          else
            (case imap_search sess folder of
               Inl e \<Rightarrow> Inl e
             | Inr (status2, ids) \<Rightarrow>
                 if status2 \<noteq> ''OK'' then Inr (cs, 0)
                 else
                   (let message_ids =
                          (case limit of
                             None \<Rightarrow> ids
                           | Some l \<Rightarrow> if l \<noteq> 0 then slice_from (- l) ids else ids);
                        is_sent = contains ''sent'' (lower folder)
                    in Inr (scan_messages lib owner cs 0
                              (map (imap_fetch sess folder) message_ids)))))"

subsection \<open>\<open>get_contacts\<close>\<close>

record export_row =
  out_name :: string
  out_email :: string
  out_sent_count :: int
  out_received_count :: int
  total_interactions :: int
  out_first_seen :: string
  out_last_seen :: string
  out_domain :: string

definition export_entry :: "pylib \<Rightarrow> string \<times> contact \<Rightarrow> export_row" where
  \<comment> \<open>the dict of lines 288 to 297 for one item of \<open>self.contacts.items()\<close>\<close>
  "export_entry lib item =
     (let email_addr = fst item; data = snd item;
          total = sent_count data + received_count data
      in \<lparr> out_name = name data,
           out_email = email_addr,
           out_sent_count = sent_count data,
           out_received_count = received_count data,
           total_interactions = total,
           out_first_seen = (case first_seen data of None \<Rightarrow> [] | Some d \<Rightarrow> lib_isoformat lib d),
           out_last_seen = (case last_seen data of None \<Rightarrow> [] | Some d \<Rightarrow> lib_isoformat lib d),
           out_domain = (case domains data of [] \<Rightarrow> [] | d # ds \<Rightarrow> d) \<rparr>)"

fun collect_results :: "pylib \<Rightarrow> int \<Rightarrow> contacts \<Rightarrow> export_row list \<Rightarrow> export_row list" where
  \<comment> \<open>the loop of lines 285 to 297\<close>
  "collect_results lib min_interactions [] results = results"
| "collect_results lib min_interactions (item # items) results =
     (let total = sent_count (snd item) + received_count (snd item)
      in if min_interactions \<le> total
         then collect_results lib min_interactions items (results @ [export_entry lib item])
         else collect_results lib min_interactions items results)"

definition sort_reverse :: "('a \<Rightarrow> int) \<Rightarrow> 'a list \<Rightarrow> 'a list" where
  \<comment> \<open>\<open>xs.sort(key=k, reverse=True)\<close>: the list is reversed, sorted by a stable sort and
      reversed again\<close>
  "sort_reverse k xs = rev (sort_key k (rev xs))"

definition get_contacts :: "pylib \<Rightarrow> contacts \<Rightarrow> int \<Rightarrow> export_row list" where
  "get_contacts lib cs min_interactions =
     sort_reverse total_interactions (collect_results lib min_interactions cs [])"

subsection \<open>The invariant of the contacts map\<close>

text \<open>
  What holds of every entry of \<open>self.contacts\<close>, under its key \<open>k\<close>: \<open>seen_ok\<close> says that the
  two dates are both absent, or both set and in order.
\<close>

definition seen_ok :: "contact \<Rightarrow> bool" where
  "seen_ok c =
     (case first_seen c of
        None \<Rightarrow> last_seen c = None
      | Some f \<Rightarrow> (case last_seen c of None \<Rightarrow> False | Some l \<Rightarrow> dt_le f l = Inr True))"

definition contact_ok :: "string \<Rightarrow> contact \<Rightarrow> bool" where
  "contact_ok k c =
     (email c = k \<and> lower k = k \<and> 0 \<le> sent_count c \<and> 0 \<le> received_count c
      \<and> 1 \<le> sent_count c + received_count c \<and> domains c \<noteq> [] \<and> seen_ok c)"

subsection \<open>Examples\<close>

text \<open>
  A library for examples. Its \<open>decode_header\<close> is right for a header without encoded
  words, its \<open>parseaddr\<close> for a bare address and for a name followed by an address in
  angle brackets, and its \<open>strptime\<close> is a table with the two dates the examples use.
\<close>

definition example_parseaddr :: "string \<Rightarrow> string \<times> string" where
  "example_parseaddr s =
     (if CHR ''<'' \<in> set s
      then (strip_chars [DQUOTE] (strip (takeWhile (\<lambda>c. c \<noteq> CHR ''<'') s)),
            takeWhile (\<lambda>c. c \<noteq> CHR ''>'') (drop 1 (dropWhile (\<lambda>c. c \<noteq> CHR ''<'') s)))
      else ([], s))"

definition example_mail_strptime :: "string \<Rightarrow> string \<Rightarrow> datetime option" where
  "example_mail_strptime s fmt =
     (if s = ''Mon, 1 Jan 2024 10:00:00 +0000'' \<and> fmt = ''%a, %d %b %Y %H:%M:%S %z''
      then Some (Aware 1704103200 0)
      else if s = ''1 Jan 2024 09:00:00'' \<and> fmt = ''%d %b %Y %H:%M:%S''
      then Some (Naive 1704099600)
      else None)"

definition example_lib :: pylib where
  "example_lib =
     \<lparr> lib_decode_header = (\<lambda>s. Inr [(Str s, None)]),
       lib_bytes_decode = (\<lambda>b enc. Inr b),
       lib_parseaddr = example_parseaddr,
       lib_strptime = example_mail_strptime,
       lib_isoformat = (\<lambda>d. if d = Aware 1704103200 0 then ''2024-01-01T10:00:00+00:00''
                              else ''2024-01-01T09:00:00'') \<rparr>"


definition example_contacts :: contacts where
  "example_contacts =
     [(''a@x.com'', default_contact\<lparr>email := ''a@x.com'', sent_count := 1, received_count := 1\<rparr>),
      (''b@x.com'', default_contact\<lparr>email := ''b@x.com'', sent_count := 0, received_count := 1\<rparr>),
      (''c@x.com'', default_contact\<lparr>email := ''c@x.com'', sent_count := 3, received_count := 2\<rparr>),
      (''d@x.com'', default_contact\<lparr>email := ''d@x.com'', sent_count := 2, received_count := 0\<rparr>)]"

definition example_message :: message where
  "example_message =
     [''From'' \<mapsto> ''me@x.com'', ''To'' \<mapsto> ''Bob@Y.com'',
      ''Date'' \<mapsto> ''Mon, 1 Jan 2024 10:00:00 +0000 (UTC)'']"

definition example_session :: session where
  "example_session =
     \<lparr> imap_select = (\<lambda>folder. Inr ''OK''),
       imap_search = (\<lambda>folder. Inr (''OK'', [''1''])),
       imap_fetch = (\<lambda>folder msg_id. Fetched example_message) \<rparr>"

definition example_scanned :: contacts where
  "example_scanned =
     [(''bob@y.com'',
       \<lparr> name = [], email = ''bob@y.com'', sent_count = 1, received_count = 0,
         first_seen = Some (Aware 1704103200 0), last_seen = Some (Aware 1704103200 0),
         domains = [''y.com''] \<rparr>)]"


definition example_naive_message :: message where
  "example_naive_message =
     [''From'' \<mapsto> ''bob@y.com'', ''Date'' \<mapsto> ''1 Jan 2024 09:00:00'']"

definition example_aware_message :: message where
  "example_aware_message =
     [''From'' \<mapsto> ''bob@y.com'', ''To'' \<mapsto> ''carol@z.com'',
      ''Date'' \<mapsto> ''Mon, 1 Jan 2024 10:00:00 +0000'']"

definition example_after_naive :: contacts where
  "example_after_naive =
     [(''bob@y.com'',
       \<lparr> name = [], email = ''bob@y.com'', sent_count = 0, received_count = 1,
         first_seen = Some (Naive 1704099600), last_seen = Some (Naive 1704099600),
         domains = [''y.com''] \<rparr>)]"

definition example_after_aware :: contacts where
  "example_after_aware =
     [(''bob@y.com'',
       \<lparr> name = [], email = ''bob@y.com'', sent_count = 0, received_count = 2,
         first_seen = Some (Naive 1704099600), last_seen = Some (Naive 1704099600),
         domains = [''y.com''] \<rparr>)]"

section \<open>Properties\<close>

lemma replace_one_char: "replace [x] [] s = filter (\<lambda>c. c \<noteq> x) s"
  by (induction s) (simp_all add: replace_def)

lemma lower_Nil [simp]: "lower [] = []"
  by (simp add: lower_def)

subsection \<open>The domain label\<close>

lemma domain_label_eq: "domain_label company = spec_domain_label company"
  by (simp add: domain_label_def spec_domain_label_def replace_one_char conj_commute)

text \<open>
  C9: the domain label of a company name is the name in lower case with every space and
  comma removed, cut to its first 20 characters; for \<open>Acme, Inc.\<close> it is \<open>acmeinc.\<close>.
\<close>

theorem domain_label_spec:
  "domain_label company = spec_domain_label company
   \<and> length (domain_label company) \<le> 20
   \<and> CHR '' '' \<notin> set (domain_label company)
   \<and> CHR '','' \<notin> set (domain_label company)
   \<and> domain_label ''Acme, Inc.'' = ''acmeinc.''"
proof -
  have e: "domain_label company = spec_domain_label company" by (rule domain_label_eq)
  have l: "length (spec_domain_label company) \<le> 20" by (simp add: spec_domain_label_def)
  have s: "CHR '' '' \<notin> set (spec_domain_label company)"
    by (auto simp: spec_domain_label_def dest: in_set_takeD)
  have c: "CHR '','' \<notin> set (spec_domain_label company)"
    by (auto simp: spec_domain_label_def dest: in_set_takeD)
  have x: "domain_label ''Acme, Inc.'' = ''acmeinc.''" by code_simp
  show ?thesis using e l s c x by simp
qed

theorem domain_label_spec_witness:
  "domain_label ''Blue Sky Labs, Incorporated'' = ''blueskylabsincorpora''"
  using domain_label_spec [of "''Blue Sky Labs, Incorporated''"] by code_simp

subsection \<open>Rows of the export\<close>

lemma strip_val_PyStr: "v \<noteq> PyNone \<Longrightarrow> \<exists>s. v = PyStr s \<and> strip_val v = Inr (strip s)"
  by (cases v) (simp_all add: strip_val_def)

lemma parse_row_wellformed:
  assumes "PyNone \<notin> set (li_fields row)"
  shows "\<exists>r. parse_row strptime isoformat row = Inr r"
proof -
  let ?v1 = "row_get row ''First Name'' (row_get row ''first_name'' (PyStr []))"
  let ?v2 = "row_get row ''Last Name'' (row_get row ''last_name'' (PyStr []))"
  let ?v3 = "row_get row ''Email Address'' (row_get row ''Email'' (row_get row ''email'' (PyStr [])))"
  let ?v4 = "row_get row ''Company'' (row_get row ''company'' (PyStr []))"
  let ?v5 = "row_get row ''Position'' (row_get row ''position'' (PyStr []))"
  let ?v6 = "row_get row ''Connected On'' (row_get row ''connected_on'' (PyStr []))"
  let ?v7 = "row_get row ''URL'' (row_get row ''Profile URL'' (row_get row ''url'' (PyStr [])))"
  have n: "?v1 \<noteq> PyNone" "?v2 \<noteq> PyNone" "?v3 \<noteq> PyNone" "?v4 \<noteq> PyNone"
    "?v5 \<noteq> PyNone" "?v6 \<noteq> PyNone" "?v7 \<noteq> PyNone"
    using assms unfolding li_fields_def by auto
  obtain s1 s2 s3 s4 s5 s6 s7 where
    s: "strip_val ?v1 = Inr s1" "strip_val ?v2 = Inr s2" "strip_val ?v3 = Inr s3"
       "strip_val ?v4 = Inr s4" "strip_val ?v5 = Inr s5" "strip_val ?v6 = Inr s6"
       "strip_val ?v7 = Inr s7"
    using n [THEN strip_val_PyStr] by blast
  show ?thesis
    unfolding parse_row_def s bind_err_def by (cases "s1 = [] \<and> s2 = []") simp_all
qed

lemma parse_row_dropped_iff:
  assumes "parse_row strptime isoformat row = Inr r"
  shows "(r = None) =
     (strip_val (row_get row ''First Name'' (row_get row ''first_name'' (PyStr []))) = Inr []
      \<and> strip_val (row_get row ''Last Name'' (row_get row ''last_name'' (PyStr []))) = Inr [])"
  using assms
  by (auto simp: parse_row_def bind_err_def split: sum.splits if_splits)

lemma parse_rows_append:
  "\<forall>row \<in> set rows. \<exists>r. parse_row strptime isoformat row = Inr r \<Longrightarrow>
   parse_rows strptime isoformat rows contacts =
     Inr (contacts @ List.map_filter
            (\<lambda>row. case parse_row strptime isoformat row of Inl e \<Rightarrow> None | Inr r \<Rightarrow> r) rows)"
proof (induction rows arbitrary: contacts)
  case Nil
  then show ?case by (simp add: List.map_filter_simps)
next
  case (Cons row rows)
  then obtain r where r: "parse_row strptime isoformat row = Inr r" by auto
  have ih: "parse_rows strptime isoformat rows cs =
     Inr (cs @ List.map_filter
            (\<lambda>row. case parse_row strptime isoformat row of Inl e \<Rightarrow> None | Inr r \<Rightarrow> r) rows)" for cs
    using Cons by simp
  show ?case by (cases r) (simp_all add: r ih List.map_filter_simps)
qed

text \<open>
  C7: a record shorter than the header gives a row with \<open>None\<close> under the missing field
  names; \<open>strip\<close> on \<open>None\<close> raises \<open>AttributeError\<close>, which nothing catches, so the row is
  neither dropped nor kept with empty strings: the whole parse ends with the exception.
\<close>

theorem short_row_raises:
  "DictReader [''First Name'', ''Last Name'', ''Company''] [[''Ada'']] =
     [[''First Name'' \<mapsto> PyStr ''Ada'', ''Last Name'' \<mapsto> PyNone, ''Company'' \<mapsto> PyNone]]
   \<and> parse_linkedin_rows strptime isoformat
       (DictReader [''First Name'', ''Last Name'', ''Company''] [[''Ada'']]) = Inl AttributeError"
  by (simp add: DictReader_def dict_row_def parse_linkedin_rows_def parse_row_def bind_err_def
      row_get_def strip_val_def)

subsection \<open>The connection date\<close>

lemma try_formats_find:
  "try_formats strptime s fmts =
     (case find (\<lambda>fmt. strptime s fmt \<noteq> None) fmts of
        None \<Rightarrow> None | Some fmt \<Rightarrow> strptime s fmt)"
  by (induction fmts) (auto split: option.splits)

lemma connected_on_out_first_match:
  "connected_on_out strptime isoformat s =
     (if s = [] then []
      else case find (\<lambda>fmt. strptime s fmt \<noteq> None) LI_FORMATS of
             None \<Rightarrow> s
           | Some fmt \<Rightarrow> isoformat (the (strptime s fmt)))"
  by (auto simp: connected_on_out_def parse_connection_date_def try_formats_find
      split: option.splits dest: find_Some_iff [THEN iffD1])

lemma parse_row_Some:
  assumes "parse_row strptime isoformat row = Inr (Some c)"
  shows "\<exists>s. strip_val (row_get row ''Connected On'' (row_get row ''connected_on'' (PyStr []))) = Inr s
           \<and> li_connected_on c = connected_on_out strptime isoformat s"
  using assms
  by (auto simp: parse_row_def bind_err_def split: sum.splits if_splits)

text \<open>
  On a row whose seven fields are strings, the body of the loop raises nothing, whatever
  \<open>strptime\<close> does with the string; and for every row that is kept, \<open>connected_on\<close> is the
  ISO rendering of what the first of the four patterns that parses the trimmed source
  string gives, and the trimmed source string itself when no pattern parses it (or it is
  empty).
\<close>

theorem connected_on_normalised:
  "(PyNone \<notin> set (li_fields row) \<longrightarrow> (\<exists>r. parse_row strptime isoformat row = Inr r))
   \<and> (parse_row strptime isoformat row = Inr (Some c) \<longrightarrow>
        (\<exists>s. strip_val (row_get row ''Connected On'' (row_get row ''connected_on'' (PyStr []))) = Inr s
           \<and> li_connected_on c =
               (if s = [] then []
                else case find (\<lambda>fmt. strptime s fmt \<noteq> None) LI_FORMATS of
                       None \<Rightarrow> s
                     | Some fmt \<Rightarrow> isoformat (the (strptime s fmt)))))"
proof (intro conjI impI)
  assume "PyNone \<notin> set (li_fields row)"
  then show "\<exists>r. parse_row strptime isoformat row = Inr r" by (rule parse_row_wellformed)
next
  assume "parse_row strptime isoformat row = Inr (Some c)"
  from parse_row_Some [OF this]
  show "\<exists>s. strip_val (row_get row ''Connected On'' (row_get row ''connected_on'' (PyStr []))) = Inr s
           \<and> li_connected_on c =
               (if s = [] then []
                else case find (\<lambda>fmt. strptime s fmt \<noteq> None) LI_FORMATS of
                       None \<Rightarrow> s
                     | Some fmt \<Rightarrow> isoformat (the (strptime s fmt)))"
    by (simp add: connected_on_out_first_match)
qed

lemma li_example: "parse_row example_strptime example_isoformat example_row = Inr (Some example_li_contact)"
  by code_simp

lemma li_example_fields: "PyNone \<notin> set (li_fields example_row)"
  by code_simp

theorem connected_on_normalised_witness:
  "PyNone \<notin> set (li_fields example_row)
   \<and> parse_row example_strptime example_isoformat example_row = Inr (Some example_li_contact)
   \<and> (\<exists>s. strip_val (row_get example_row ''Connected On''
                 (row_get example_row ''connected_on'' (PyStr []))) = Inr s
           \<and> li_connected_on example_li_contact =
               (if s = [] then []
                else case find (\<lambda>fmt. example_strptime s fmt \<noteq> None) LI_FORMATS of
                       None \<Rightarrow> s
                     | Some fmt \<Rightarrow> example_isoformat (the (example_strptime s fmt))))"
  by (rule conjI [OF li_example_fields conjI [OF li_example
        mp [OF connected_on_normalised [THEN conjunct2] li_example]]])

lemma parse_linkedin_rows_wellformed:
  assumes "\<forall>row \<in> set rows. PyNone \<notin> set (li_fields row)"
  shows "\<exists>contacts. parse_linkedin_rows strptime isoformat rows = Inr contacts
     \<and> (\<forall>c \<in> set contacts. \<exists>row \<in> set rows. parse_row strptime isoformat row = Inr (Some c))"
proof -
  let ?f = "\<lambda>row. case parse_row strptime isoformat row of Inl e \<Rightarrow> None | Inr r \<Rightarrow> r"
  have w: "\<forall>row \<in> set rows. \<exists>r. parse_row strptime isoformat row = Inr r"
    using assms parse_row_wellformed by blast
  have e: "parse_linkedin_rows strptime isoformat rows = Inr (List.map_filter ?f rows)"
    using parse_rows_append [OF w, of "[]"] by (simp add: parse_linkedin_rows_def)
  have "\<forall>c \<in> set (List.map_filter ?f rows). \<exists>row \<in> set rows. parse_row strptime isoformat row = Inr (Some c)"
    by (auto simp: List.map_filter_def split: sum.splits)
  then show ?thesis using e by blast
qed

text \<open>
  C8: a record with no field for the \<open>Connected On\<close> column gives a row with \<open>None\<close> there;
  line 44 calls \<open>strip\<close> on it and raises \<open>AttributeError\<close>, which nothing catches: the row
  gets no \<open>connected_on\<close>, neither normalised nor raw, and the whole parse ends with the
  exception.
\<close>

theorem missing_date_cell_raises:
  "DictReader [''First Name'', ''Connected On''] [[''Ada'']] =
     [[''First Name'' \<mapsto> PyStr ''Ada'', ''Connected On'' \<mapsto> PyNone]]
   \<and> strip_val (row_get [''First Name'' \<mapsto> PyStr ''Ada'', ''Connected On'' \<mapsto> PyNone] ''Connected On''
        (row_get [''First Name'' \<mapsto> PyStr ''Ada'', ''Connected On'' \<mapsto> PyNone] ''connected_on'' (PyStr [])))
       = Inl AttributeError
   \<and> parse_linkedin_rows strptime isoformat
       (DictReader [''First Name'', ''Connected On''] [[''Ada'']]) = Inl AttributeError"
  by (simp add: DictReader_def dict_row_def parse_linkedin_rows_def parse_row_def bind_err_def
      row_get_def strip_val_def)

subsection \<open>Lower case and whitespace\<close>

lemma of_char_lower_char:
  "(of_char (lower_char c) :: nat) =
     (let n = of_char c in if (65 \<le> n \<and> n \<le> 90) \<or> (192 \<le> n \<and> n \<le> 222 \<and> n \<noteq> 215) then n + 32 else n)"
  by (simp add: lower_char_def Let_def)

lemma lower_char_idem: "lower_char (lower_char c) = lower_char c"
  by (rule of_char_eqI [where ?'a = nat]) (auto simp add: of_char_lower_char Let_def)

lemma lower_idem: "lower (lower s) = lower s"
  by (simp add: lower_def lower_char_idem)














subsection \<open>\<open>_parse_email_addresses\<close>\<close>





























subsection \<open>\<open>_update_contact\<close>\<close>

lemma getitem_update: "getitem (AList.update k v cs) k' = (if k' = k then v else getitem cs k')"
  by (simp add: getitem_def update_conv')

lemma in_set_update:
  "(k', c') \<in> set (AList.update k v al) \<Longrightarrow> (k' = k \<and> c' = v) \<or> (k', c') \<in> set al"
  by (induction al) (auto split: if_splits)

lemma getitem_cases:
  "(map_of cs k = None \<and> getitem cs k = default_contact) \<or> (k, getitem cs k) \<in> set cs"
  by (auto simp: getitem_def dest: map_of_SomeD split: option.splits)

lemma update_dates_fields:
  "update_dates c d = (c', r) \<Longrightarrow>
     name c' = name c \<and> email c' = email c \<and> sent_count c' = sent_count c
     \<and> received_count c' = received_count c \<and> domains c' = domains c"
  by (auto simp: update_dates_def Let_def split: option.splits sum.splits if_splits)

lemma update_dates_None: "update_dates c None = (c, None)"
  by (simp add: update_dates_def)

lemma update_dates_raises:
  "update_dates c d = (c', Some e) \<Longrightarrow> first_seen c \<noteq> None \<or> last_seen c \<noteq> None"
  by (auto simp: update_dates_def Let_def split: option.splits sum.splits if_splits)

lemma update_dates_seen_ok: "seen_ok c \<Longrightarrow> update_dates c d = (c', r) \<Longrightarrow> seen_ok c'"
proof (cases d)
  case None
  assume "seen_ok c" "update_dates c d = (c', r)"
  then show ?thesis using None by (simp add: update_dates_def)
next
  case (Some x)
  assume ok: "seen_ok c" and u: "update_dates c d = (c', r)"
  show ?thesis
  proof (cases "first_seen c")
    case None
    then have "last_seen c = None" using ok by (simp add: seen_ok_def)
    then show ?thesis using u Some None
      by (cases x) (auto simp: update_dates_def seen_ok_def Let_def)
  next
    case f: (Some f)
    then obtain l where l: "last_seen c = Some l" and le: "dt_le f l = Inr True"
      using ok by (auto simp: seen_ok_def split: option.splits)
    show ?thesis using u Some f l le
      by (cases x; cases f; cases l)
         (auto simp: update_dates_def seen_ok_def dt_gt_def Let_def split: if_splits)
  qed
qed

lemma seen_ok_default: "seen_ok default_contact"
  by (simp add: seen_ok_def default_contact_def)

lemma update_contact_owner:
  "lower a = lower owner \<Longrightarrow> update_contact owner cs n a d s = (cs, None)"
  by (simp add: update_contact_def)

lemma update_contact_keys:
  "fst ` set (fst (update_contact owner cs n a d s)) =
     (if lower a = lower owner then fst ` set cs else insert (lower a) (fst ` set cs))"
  by (auto simp: update_contact_def Let_def dom_update split: prod.splits option.splits)

lemma update_contact_keys_subset:
  "k \<in> fst ` set (fst (update_contact owner cs n a d s)) \<Longrightarrow> k \<in> fst ` set cs \<or> (k = lower a \<and> lower a \<noteq> lower owner)"
  by (auto simp: update_contact_keys split: if_splits)



lemma seen_ok_track_domain: "seen_ok (track_domain c k) = seen_ok c"
  by (simp add: seen_ok_def track_domain_def cong: option.case_cong)

lemma set_add_not_Nil: "set_add x xs \<noteq> []"
  by (auto simp: set_add_def)

lemma update_contact_unfold:
  assumes "lower a \<noteq> lower owner"
    and "update_dates (update_counts (keep_best_name ((getitem cs (lower a))\<lparr>email := lower a\<rparr>) n) s) d = (c', r)"
  shows "update_contact owner cs n a d s =
     (AList.update (lower a) (case r of None \<Rightarrow> track_domain c' (lower a) | Some e \<Rightarrow> c') cs, r)"
  using assms by (cases r) (simp_all add: update_contact_def Let_def)

lemma update_contact_ok:
  assumes inv: "\<forall>(k, c) \<in> set cs. contact_ok k c"
  shows "\<forall>(k, c) \<in> set (fst (update_contact owner cs n a d s)). contact_ok k c"
proof (cases "lower a = lower owner")
  case True
  then show ?thesis using inv by (simp add: update_contact_owner)
next
  case False
  define k where "k = lower a"
  define c0 where "c0 = getitem cs k"
  define c3 where "c3 = update_counts (keep_best_name (c0\<lparr>email := k\<rparr>) n) s"
  obtain c4 r where u: "update_dates c3 d = (c4, r)" by (cases "update_dates c3 d") auto
  have "fst (update_contact owner cs n a d s) =
      AList.update (lower a) (case r of None \<Rightarrow> track_domain c4 (lower a) | Some e \<Rightarrow> c4) cs"
    using update_contact_unfold [OF False, of cs n s d c4 r] u
    by (simp add: c3_def c0_def k_def)
  then have res: "fst (update_contact owner cs n a d s) =
      AList.update k (case r of None \<Rightarrow> track_domain c4 k | Some e \<Rightarrow> c4) cs"
    unfolding k_def .
  have c0: "c0 = default_contact \<or> contact_ok k c0"
    using getitem_cases [of cs k] inv unfolding c0_def by auto
  have same: "email c3 = k" "domains c3 = domains c0" "first_seen c3 = first_seen c0"
    "last_seen c3 = last_seen c0"
    "sent_count c3 + received_count c3 = sent_count c0 + received_count c0 + 1"
    "sent_count c0 \<le> sent_count c3" "received_count c0 \<le> received_count c3"
    unfolding c3_def update_counts_def keep_best_name_def by simp_all
  have seen3: "seen_ok c3 = seen_ok c0" unfolding seen_ok_def same(3) same(4) by (rule refl)
  have nonneg0: "0 \<le> sent_count c0 \<and> 0 \<le> received_count c0"
    using c0 by (auto simp: contact_ok_def default_contact_def)
  have ok3: "seen_ok c3" using c0 seen3 by (auto simp: seen_ok_default contact_ok_def)
  have ok4: "seen_ok c4" using update_dates_seen_ok [OF ok3 u] .
  have f4: "email c4 = k" "0 \<le> sent_count c4" "0 \<le> received_count c4"
    "1 \<le> sent_count c4 + received_count c4" "domains c4 = domains c0"
    using update_dates_fields [OF u] same nonneg0 by auto
  have lk: "lower k = k" by (simp add: k_def lower_idem)
  have "contact_ok k (case r of None \<Rightarrow> track_domain c4 k | Some e \<Rightarrow> c4)"
  proof (cases r)
    case None
    then show ?thesis
      using f4 ok4 lk by (auto simp: contact_ok_def seen_ok_track_domain) (simp_all add: track_domain_def set_add_not_Nil)
  next
    case (Some e)
    have "first_seen c0 \<noteq> None \<or> last_seen c0 \<noteq> None"
      using update_dates_raises [of c3 d c4 e] u Some same(3,4) by simp
    then have "c0 \<noteq> default_contact" by (auto simp: default_contact_def)
    then have "contact_ok k c0" using c0 by simp
    then show ?thesis using Some f4 ok4 lk by (auto simp: contact_ok_def)
  qed
  then show ?thesis unfolding res using inv by (auto dest!: in_set_update)
qed

lemma run_updates_ok:
  "\<forall>(k, c) \<in> set cs. contact_ok k c \<Longrightarrow> \<forall>(k, c) \<in> set (run_updates owner cs obs). contact_ok k c"
proof (induction obs arbitrary: cs)
  case Nil
  then show ?case by simp
next
  case (Cons ob obs)
  show ?case
    by (simp only: run_updates.simps) (rule Cons.IH, rule update_contact_ok, rule Cons.prems)
qed

lemma run_updates_keys:
  "\<forall>k \<in> fst ` set cs. lower k \<noteq> lower owner \<Longrightarrow>
   \<forall>k \<in> fst ` set (run_updates owner cs obs). lower k \<noteq> lower owner"
proof (induction obs arbitrary: cs)
  case Nil
  then show ?case by simp
next
  case (Cons ob obs)
  have "\<forall>k \<in> fst ` set (fst (update_contact owner cs (fst ob) (fst (snd ob))
          (fst (snd (snd ob))) (snd (snd (snd ob))))). lower k \<noteq> lower owner"
  proof
    fix k
    assume "k \<in> fst ` set (fst (update_contact owner cs (fst ob) (fst (snd ob))
          (fst (snd (snd ob))) (snd (snd (snd ob)))))"
    from update_contact_keys_subset [OF this] show "lower k \<noteq> lower owner"
      using Cons.prems by (auto simp: lower_idem)
  qed
  from Cons.IH [OF this] show ?case by simp
qed


lemma update_contact_distinct:
  "distinct (map fst cs) \<Longrightarrow> distinct (map fst (fst (update_contact owner cs n a d s)))"
  by (auto simp: update_contact_def Let_def distinct_update split: prod.splits option.splits)

lemma run_updates_distinct:
  "distinct (map fst cs) \<Longrightarrow> distinct (map fst (run_updates owner cs obs))"
  by (induction obs arbitrary: cs) (simp_all add: update_contact_distinct)

lemma update_contact_name:
  assumes "lower a \<noteq> lower owner"
  shows "name (getitem (fst (update_contact owner cs n a d s)) (lower a)) =
     (if n \<noteq> [] \<and> length (name (getitem cs (lower a))) < length n then n
      else name (getitem cs (lower a)))"
proof -
  let ?c = "update_counts (keep_best_name ((getitem cs (lower a))\<lparr>email := lower a\<rparr>) n) s"
  obtain c' r where u: "update_dates ?c d = (c', r)" by (cases "update_dates ?c d") auto
  have "name (getitem (fst (update_contact owner cs n a d s)) (lower a)) = name c'"
    unfolding update_contact_unfold [OF assms u]
    by (cases r) (simp_all add: getitem_update track_domain_def)
  also have "\<dots> = name ?c" using update_dates_fields [OF u] by simp
  also have "\<dots> = (if n \<noteq> [] \<and> length (name (getitem cs (lower a))) < length n then n
      else name (getitem cs (lower a)))"
    by (auto simp: update_counts_def keep_best_name_def)
  finally show ?thesis .
qed

lemma getitem_Nil: "getitem [] k = default_contact"
  by (simp add: getitem_def)

text \<open>
  C4: an observation of a name for an address other than the owner's replaces the stored
  name exactly when the name is not empty and strictly longer than the stored one (the
  stored name of an address not yet seen is empty); so \<open>Jo\<close> then \<open>Jo Ann\<close> ends as
  \<open>Jo Ann\<close>, and \<open>Jo Ann\<close> then \<open>Jo\<close> stays \<open>Jo Ann\<close>.
\<close>

theorem name_retention:
  assumes "lower a \<noteq> lower owner"
  shows "name (getitem (fst (update_contact owner cs n a d s)) (lower a)) =
           (if n \<noteq> [] \<and> length (name (getitem cs (lower a))) < length n then n
            else name (getitem cs (lower a)))
       \<and> name (getitem (run_updates owner [] [(''Jo'', a, d1, s1), (''Jo Ann'', a, d2, s2)]) (lower a))
           = ''Jo Ann''
       \<and> name (getitem (run_updates owner [] [(''Jo Ann'', a, d1, s1), (''Jo'', a, d2, s2)]) (lower a))
           = ''Jo Ann''"
  using assms by (simp add: update_contact_name getitem_Nil default_contact_def)

theorem name_retention_witness:
  "name (getitem (fst (update_contact ''me@x.com''
      [(''bob@y.com'', default_contact\<lparr>name := ''Bob'', email := ''bob@y.com''\<rparr>)]
      ''Rob'' ''Bob@Y.com'' None True)) ''bob@y.com'') = ''Bob''"
proof -
  have l: "lower ''Bob@Y.com'' = ''bob@y.com''" "lower ''me@x.com'' = ''me@x.com''" by code_simp+
  have h: "lower ''Bob@Y.com'' \<noteq> lower ''me@x.com''" unfolding l by simp
  show ?thesis
    using name_retention [OF h, of "[(''bob@y.com'', default_contact\<lparr>name := ''Bob'', email := ''bob@y.com''\<rparr>)]" "''Rob'' " None True]
    unfolding l by (simp add: getitem_def)
qed

lemma update_contact_absent_date:
  "first_seen (getitem (fst (update_contact owner cs n a None s)) k) = first_seen (getitem cs k)
   \<and> last_seen (getitem (fst (update_contact owner cs n a None s)) k) = last_seen (getitem cs k)
   \<and> snd (update_contact owner cs n a None s) = None"
  by (simp add: update_contact_def Let_def update_dates_None getitem_update track_domain_def
      update_counts_def keep_best_name_def)

lemma try_formats_None:
  "\<forall>fmt \<in> set fmts. strptime s fmt = None \<Longrightarrow> try_formats strptime s fmts = None"
  by (induction fmts) simp_all

text \<open>
  C6: \<open>_parse_date\<close> returns \<open>None\<close> for the empty string and for a string that, once its
  trailing comment is removed and it is trimmed, none of the four patterns parses; and a
  call of \<open>_update_contact\<close> with the date \<open>None\<close> raises nothing and leaves \<open>first_seen\<close>
  and \<open>last_seen\<close> of every contact as they were.
\<close>

theorem absent_date:
  "parse_date lib [] = None
   \<and> ((\<forall>fmt \<in> set MAIL_FORMATS. lib_strptime lib (strip (re_sub_tz s)) fmt = None)
        \<longrightarrow> parse_date lib s = None)
   \<and> (\<forall>k. first_seen (getitem (fst (update_contact owner cs n a None sent)) k) = first_seen (getitem cs k)
          \<and> last_seen (getitem (fst (update_contact owner cs n a None sent)) k) = last_seen (getitem cs k))
   \<and> snd (update_contact owner cs n a None sent) = None"
  by (simp add: parse_date_def try_formats_None update_contact_absent_date)

lemma clean_example: "strip (re_sub_tz ''not a date'') = ''not a date''"
  by code_simp

theorem absent_date_witness:
  "parse_date example_lib ''not a date'' = None
   \<and> first_seen (getitem (fst (update_contact ''me@x.com''
        [(''bob@y.com'', default_contact\<lparr>first_seen := Some (Naive 5), last_seen := Some (Naive 7)\<rparr>)]
        ''Bob'' ''bob@y.com'' None False)) ''bob@y.com'') = Some (Naive 5)"
proof -
  let ?cs = "[(''bob@y.com'', default_contact\<lparr>first_seen := Some (Naive 5), last_seen := Some (Naive 7)\<rparr>)]"
  have h: "\<forall>fmt \<in> set MAIL_FORMATS.
      lib_strptime example_lib (strip (re_sub_tz ''not a date'')) fmt = None"
    unfolding clean_example by (simp add: example_lib_def example_mail_strptime_def)
  note t = absent_date [of example_lib "''not a date''" "''me@x.com''" ?cs "''Bob''" "''bob@y.com''" False]
  have a: "parse_date example_lib ''not a date'' = None"
    using t [THEN conjunct2, THEN conjunct1] h by (rule mp)
  have "first_seen (getitem (fst (update_contact ''me@x.com'' ?cs ''Bob'' ''bob@y.com'' None False)) ''bob@y.com'') =
     first_seen (getitem ?cs ''bob@y.com'')"
    using t [THEN conjunct2, THEN conjunct2, THEN conjunct1] by blast
  also have "\<dots> = Some (Naive 5)" by (simp add: getitem_def)
  finally show ?thesis using a by simp
qed

text \<open>
  C2: whatever observations the aggregator is fed, starting from the empty dict, no key of
  the dict equals the owner's address when both are compared in lower case; an
  observation of the owner's address, in any spelling of upper and lower case, leaves the
  dict as it is.
\<close>

theorem owner_never_keyed:
  "(\<forall>k \<in> fst ` set (run_updates owner [] obs). lower k \<noteq> lower owner \<and> k \<noteq> lower owner)
   \<and> (lower a = lower owner \<longrightarrow> update_contact owner cs n a d s = (cs, None))"
proof -
  have "\<forall>k \<in> fst ` set (run_updates owner [] obs). lower k \<noteq> lower owner"
    by (rule run_updates_keys) simp
  moreover have "lower k \<noteq> lower owner \<Longrightarrow> k \<noteq> lower owner" for k
    using lower_idem by auto
  ultimately show ?thesis by (auto simp: update_contact_owner simp del: fst_conv)
qed

lemma lower_examples:
  "lower ''Me@X.com'' = ''me@x.com''" "lower ''ME@x.com'' = ''me@x.com''"
  "lower ''Bob@Y.com'' = ''bob@y.com''" "lower ''bob@y.com'' = ''bob@y.com''"
  "lower ''me@x.com'' = ''me@x.com''"
  by code_simp+

theorem owner_never_keyed_witness:
  "map fst (run_updates ''Me@X.com'' []
      [(''Me'', ''ME@x.com'', None, False), (''Bob'', ''Bob@Y.com'', None, True)]) = [''bob@y.com'']
   \<and> update_contact ''Me@X.com'' [] ''Me'' ''ME@x.com'' None False = ([], None)"
proof -
  have e: "map fst (run_updates ''Me@X.com'' []
      [(''Me'', ''ME@x.com'', None, False), (''Bob'', ''Bob@Y.com'', None, True)]) = [''bob@y.com'']"
    by code_simp
  have h: "lower ''ME@x.com'' = lower ''Me@X.com''" by code_simp
  have "lower ''ME@x.com'' = lower ''Me@X.com'' \<longrightarrow>
        update_contact ''Me@X.com'' [] ''Me'' ''ME@x.com'' None False = ([], None)"
    using owner_never_keyed [of "''Me@X.com''" "[]" "''ME@x.com''" "[]" "''Me''" None False]
    by (rule conjunct2)
  then have "update_contact ''Me@X.com'' [] ''Me'' ''ME@x.com'' None False = ([], None)"
    using h by (rule mp)
  then show ?thesis using e by (rule conjI [rotated])
qed

lemma contact_ok_D:
  "contact_ok k c \<Longrightarrow>
     email c = k \<and> lower k = k
     \<and> 1 \<le> sent_count c + received_count c
     \<and> domains c \<noteq> []
     \<and> ((first_seen c = None \<and> last_seen c = None)
         \<or> (\<exists>f l. first_seen c = Some f \<and> last_seen c = Some l \<and> dt_le f l = Inr True))"
  by (cases "first_seen c"; cases "last_seen c") (auto simp: contact_ok_def seen_ok_def)

text \<open>
  C10: after any sequence of calls of \<open>_update_contact\<close> from the empty dict, the keys are
  distinct and every entry has its \<open>email\<close> equal to its key, a key in lower case, at
  least one interaction counted, a domain, and \<open>first_seen\<close> and \<open>last_seen\<close> both absent
  or both set with \<open>first_seen <= last_seen\<close>.
\<close>

theorem contacts_invariant:
  "distinct (map fst (run_updates owner [] obs))
   \<and> (\<forall>(k, c) \<in> set (run_updates owner [] obs).
        email c = k \<and> lower k = k
        \<and> 1 \<le> sent_count c + received_count c
        \<and> domains c \<noteq> []
        \<and> ((first_seen c = None \<and> last_seen c = None)
            \<or> (\<exists>f l. first_seen c = Some f \<and> last_seen c = Some l \<and> dt_le f l = Inr True)))"
proof -
  have inv: "\<forall>(k, c) \<in> set (run_updates owner [] obs). contact_ok k c"
    by (rule run_updates_ok) simp
  have d: "distinct (map fst (run_updates owner [] obs))"
    by (rule run_updates_distinct) simp
  show ?thesis
  proof (intro conjI ballI)
    show "distinct (map fst (run_updates owner [] obs))" by (rule d)
  next
    fix x assume x: "x \<in> set (run_updates owner [] obs)"
    obtain k c where kc: "x = (k, c)" by (cases x)
    then have "contact_ok k c" using inv x by auto
    from contact_ok_D [OF this] show "case x of (k, c) \<Rightarrow>
        email c = k \<and> lower k = k
        \<and> 1 \<le> sent_count c + received_count c
        \<and> domains c \<noteq> []
        \<and> ((first_seen c = None \<and> last_seen c = None)
            \<or> (\<exists>f l. first_seen c = Some f \<and> last_seen c = Some l \<and> dt_le f l = Inr True))"
      unfolding kc by simp
  qed
qed


lemma run_example:
  "run_updates ''me@x.com'' []
      [(''Bob'', ''Bob@Y.com'', Some (Naive 7), True),
       (''Robert'', ''bob@y.com'', Some (Aware 3 0), False),
       (''Rob'', ''bob@y.com'', Some (Naive 2), False)] =
     [(''bob@y.com'',
       \<lparr> name = ''Robert'', email = ''bob@y.com'', sent_count = 1, received_count = 2,
         first_seen = Some (Naive 2), last_seen = Some (Naive 7), domains = [''y.com''] \<rparr>)]"
  by code_simp

theorem contacts_invariant_witness:
  "distinct (map fst (run_updates ''me@x.com'' []
      [(''Bob'', ''Bob@Y.com'', Some (Naive 7), True),
       (''Robert'', ''bob@y.com'', Some (Aware 3 0), False),
       (''Rob'', ''bob@y.com'', Some (Naive 2), False)]))
   \<and> run_updates ''me@x.com'' []
      [(''Bob'', ''Bob@Y.com'', Some (Naive 7), True),
       (''Robert'', ''bob@y.com'', Some (Aware 3 0), False),
       (''Rob'', ''bob@y.com'', Some (Naive 2), False)] =
     [(''bob@y.com'',
       \<lparr> name = ''Robert'', email = ''bob@y.com'', sent_count = 1, received_count = 2,
         first_seen = Some (Naive 2), last_seen = Some (Naive 7), domains = [''y.com''] \<rparr>)]"
  by (rule conjI [OF contacts_invariant [THEN conjunct1] run_example])

subsection \<open>\<open>scan_folder\<close>\<close>

lemma update_contact_counts:
  "sent_count (getitem (fst (update_contact owner cs n a d s)) k) =
      sent_count (getitem cs k) + (if lower a = k \<and> k \<noteq> lower owner \<and> s then 1 else 0)
   \<and> received_count (getitem (fst (update_contact owner cs n a d s)) k) =
      received_count (getitem cs k) + (if lower a = k \<and> k \<noteq> lower owner \<and> \<not> s then 1 else 0)"
proof (cases "lower a = lower owner")
  case True
  then show ?thesis by (auto simp: update_contact_owner)
next
  case False
  let ?c = "update_counts (keep_best_name ((getitem cs (lower a))\<lparr>email := lower a\<rparr>) n) s"
  obtain c' r where u: "update_dates ?c d = (c', r)" by (cases "update_dates ?c d") auto
  have f: "sent_count c' = sent_count ?c" "received_count c' = received_count ?c"
    using update_dates_fields [OF u] by simp_all
  have g: "sent_count ?c = sent_count (getitem cs (lower a)) + (if s then 1 else 0)"
    "received_count ?c = received_count (getitem cs (lower a)) + (if s then 0 else 1)"
    by (simp_all add: update_counts_def keep_best_name_def)
  show ?thesis
    unfolding update_contact_unfold [OF False u]
    using False f g by (cases r) (auto simp: getitem_update track_domain_def)
qed

lemma update_each_counts:
  assumes "update_each owner cs pairs d s = (cs', None)" and "k \<noteq> lower owner"
  shows "sent_count (getitem cs' k) =
           sent_count (getitem cs k)
             + (if s then int (length (filter (\<lambda>p. lower (snd p) = k) pairs)) else 0)
       \<and> received_count (getitem cs' k) =
           received_count (getitem cs k)
             + (if s then 0 else int (length (filter (\<lambda>p. lower (snd p) = k) pairs)))"
  using assms
proof (induction pairs arbitrary: cs)
  case Nil
  then show ?case by simp
next
  case (Cons na pairs)
  obtain cs1 r where u: "update_contact owner cs (fst na) (snd na) d s = (cs1, r)"
    by (cases "update_contact owner cs (fst na) (snd na) d s") auto
  have r: "r = None" and rest: "update_each owner cs1 pairs d s = (cs', None)"
    using Cons.prems(1) u by (auto split: option.splits)
  note ih = Cons.IH [OF rest Cons.prems(2)]
  have c: "sent_count (getitem cs1 k) =
      sent_count (getitem cs k) + (if lower (snd na) = k \<and> k \<noteq> lower owner \<and> s then 1 else 0)"
    "received_count (getitem cs1 k) =
      received_count (getitem cs k) + (if lower (snd na) = k \<and> k \<noteq> lower owner \<and> \<not> s then 1 else 0)"
    using update_contact_counts [of owner cs "fst na" "snd na" d s k] u by simp_all
  show ?case using ih c Cons.prems(2) by auto
qed

lemma scan_folder_same_answers:
  assumes "imap_select sess f1 = imap_select sess f2"
    and "imap_search sess f1 = imap_search sess f2"
    and "imap_fetch sess f1 = imap_fetch sess f2"
  shows "scan_folder lib sess owner cs f1 limit = scan_folder lib sess owner cs f2 limit"
  unfolding scan_folder_def assms Let_def by (rule refl)

text \<open>
  C1 (as amended): when the scan processes a message to its end, every address other than
  the owner's gets \<open>received_count\<close> incremented once for each time the \<open>From\<close> header
  yields it and \<open>sent_count\<close> once for each time \<open>To\<close> or \<open>Cc\<close> yields it; the folder
  plays no part: two folders for which the session answers alike are scanned alike,
  whatever their names.
\<close>

theorem role_assignment:
  assumes "process_message lib owner cs msg = (cs', None)" and "k \<noteq> lower owner"
  shows "(\<exists>fs ts ccs.
            parse_email_addresses lib (msg_get msg ''From'' []) = Inr fs
          \<and> parse_email_addresses lib (msg_get msg ''To'' []) = Inr ts
          \<and> parse_email_addresses lib (msg_get msg ''Cc'' []) = Inr ccs
          \<and> received_count (getitem cs' k) =
              received_count (getitem cs k) + int (length (filter (\<lambda>p. lower (snd p) = k) fs))
          \<and> sent_count (getitem cs' k) =
              sent_count (getitem cs k) + int (length (filter (\<lambda>p. lower (snd p) = k) (ts @ ccs))))
       \<and> (imap_select sess f1 = imap_select sess f2
            \<and> imap_search sess f1 = imap_search sess f2
            \<and> imap_fetch sess f1 = imap_fetch sess f2
          \<longrightarrow> scan_folder lib sess owner cs f1 limit = scan_folder lib sess owner cs f2 limit)
       \<and> scan_messages lib owner cs scanned (Fetched msg # rest) =
           scan_messages lib owner cs' (scanned + 1) rest"
proof -
  let ?d = "parse_date lib (msg_get msg ''Date'' [])"
  obtain fs where fs: "parse_email_addresses lib (msg_get msg ''From'' []) = Inr fs"
    using assms(1) by (cases "parse_email_addresses lib (msg_get msg ''From'' [])")
      (simp_all add: process_message_def)
  obtain cs1 where u1: "update_each owner cs fs ?d False = (cs1, None)"
    using assms(1) fs
    by (cases "update_each owner cs fs ?d False")
       (auto simp: process_message_def Let_def split: option.splits)
  obtain ts where ts: "parse_email_addresses lib (msg_get msg ''To'' []) = Inr ts"
    using assms(1) fs u1 by (cases "parse_email_addresses lib (msg_get msg ''To'' [])")
      (simp_all add: process_message_def Let_def)
  obtain cs2 where u2: "update_each owner cs1 ts ?d True = (cs2, None)"
    using assms(1) fs u1 ts
    by (cases "update_each owner cs1 ts ?d True")
       (auto simp: process_message_def Let_def split: option.splits)
  obtain ccs where ccs: "parse_email_addresses lib (msg_get msg ''Cc'' []) = Inr ccs"
    using assms(1) fs u1 ts u2 by (cases "parse_email_addresses lib (msg_get msg ''Cc'' [])")
      (simp_all add: process_message_def Let_def)
  have u3: "update_each owner cs2 ccs ?d True = (cs', None)"
    using assms(1) fs u1 ts u2 ccs by (simp add: process_message_def Let_def)
  note c1 = update_each_counts [OF u1 assms(2)]
  note c2 = update_each_counts [OF u2 assms(2)]
  note c3 = update_each_counts [OF u3 assms(2)]
  have r: "received_count (getitem cs' k) =
      received_count (getitem cs k) + int (length (filter (\<lambda>p. lower (snd p) = k) fs))"
    using c1 c2 c3 by simp
  have s: "sent_count (getitem cs' k) =
      sent_count (getitem cs k) + int (length (filter (\<lambda>p. lower (snd p) = k) (ts @ ccs)))"
    using c1 c2 c3 by simp
  have "\<exists>fs ts ccs.
            parse_email_addresses lib (msg_get msg ''From'' []) = Inr fs
          \<and> parse_email_addresses lib (msg_get msg ''To'' []) = Inr ts
          \<and> parse_email_addresses lib (msg_get msg ''Cc'' []) = Inr ccs
          \<and> received_count (getitem cs' k) =
              received_count (getitem cs k) + int (length (filter (\<lambda>p. lower (snd p) = k) fs))
          \<and> sent_count (getitem cs' k) =
              sent_count (getitem cs k) + int (length (filter (\<lambda>p. lower (snd p) = k) (ts @ ccs)))"
    using fs ts ccs r s by blast
  moreover have "scan_messages lib owner cs scanned (Fetched msg # rest) =
           scan_messages lib owner cs' (scanned + 1) rest"
    using assms(1) by simp
  ultimately show ?thesis using scan_folder_same_answers by blast
qed

lemma example_from: 
  "parse_email_addresses example_lib (msg_get example_message ''From'' []) = Inr [([], ''me@x.com'')]"
  by code_simp

lemma example_process:
  "process_message example_lib ''me@x.com'' [] example_message = (example_scanned, None)"
  by code_simp

lemma example_scan:
  "scan_folder example_lib example_session ''me@x.com'' [] ''INBOX'' None = Inr (example_scanned, 1)"
  by code_simp

lemma example_scan_sent:
  "scan_folder example_lib example_session ''me@x.com'' [] ''Sent'' None = Inr (example_scanned, 1)"
  by code_simp

lemma example_naive_process:
  "process_message example_lib ''me@x.com'' [] example_naive_message = (example_after_naive, None)"
  by code_simp

lemma example_aware_to:
  "parse_email_addresses example_lib (msg_get example_aware_message ''To'' []) = Inr [([], ''carol@z.com'')]"
  by code_simp

lemma example_aware_process:
  "process_message example_lib ''me@x.com'' example_after_naive example_aware_message =
     (example_after_aware, Some TypeError)"
  by code_simp

lemma example_two_messages:
  "scan_messages example_lib ''me@x.com'' [] 0
     [Fetched example_naive_message, Fetched example_aware_message] = (example_after_aware, 1)"
  by code_simp

text \<open>
  The owner's own address in \<open>From\<close> is extracted and not counted: the scan of a folder
  with one message from the owner to Bob leaves an entry for Bob alone. And a message whose
  date is aware, from a contact first seen with a naive date, is given up at the comparison
  of the two dates: Carol, in its \<open>To\<close> header, is not counted.
\<close>

theorem role_assignment_counterexample:
  "parse_email_addresses example_lib (msg_get example_message ''From'' []) = Inr [([], ''me@x.com'')]
   \<and> scan_folder example_lib example_session ''me@x.com'' [] ''INBOX'' None = Inr (example_scanned, 1)
   \<and> map fst example_scanned = [''bob@y.com'']
   \<and> received_count (getitem example_scanned ''me@x.com'') = 0
   \<and> parse_email_addresses example_lib (msg_get example_aware_message ''To'' []) = Inr [([], ''carol@z.com'')]
   \<and> process_message example_lib ''me@x.com'' example_after_naive example_aware_message =
        (example_after_aware, Some TypeError)
   \<and> sent_count (getitem example_after_aware ''carol@z.com'') = 0"
proof -
  have a: "map fst example_scanned = [''bob@y.com'']"
    "received_count (getitem example_scanned ''me@x.com'') = 0"
    "sent_count (getitem example_after_aware ''carol@z.com'') = 0"
    by (simp_all add: example_scanned_def example_after_aware_def getitem_def default_contact_def)
  show ?thesis
    using example_from example_scan a example_aware_to example_aware_process by simp
qed

theorem role_assignment_witness:
  "(\<exists>fs ts ccs.
        parse_email_addresses example_lib (msg_get example_message ''From'' []) = Inr fs
      \<and> parse_email_addresses example_lib (msg_get example_message ''To'' []) = Inr ts
      \<and> parse_email_addresses example_lib (msg_get example_message ''Cc'' []) = Inr ccs
      \<and> received_count (getitem example_scanned ''bob@y.com'') =
          received_count (getitem [] ''bob@y.com'')
            + int (length (filter (\<lambda>p. lower (snd p) = ''bob@y.com'') fs))
      \<and> sent_count (getitem example_scanned ''bob@y.com'') =
          sent_count (getitem [] ''bob@y.com'')
            + int (length (filter (\<lambda>p. lower (snd p) = ''bob@y.com'') (ts @ ccs))))
   \<and> scan_folder example_lib example_session ''me@x.com'' [] ''INBOX'' None =
       scan_folder example_lib example_session ''me@x.com'' [] ''Sent'' None"
proof -
  have h: "''bob@y.com'' \<noteq> lower ''me@x.com''" unfolding lower_examples by simp
  note t = role_assignment [OF example_process h, of example_session "''INBOX''" "''Sent''" None 0 "[]"]
  have a: "imap_select example_session ''INBOX'' = imap_select example_session ''Sent''
      \<and> imap_search example_session ''INBOX'' = imap_search example_session ''Sent''
      \<and> imap_fetch example_session ''INBOX'' = imap_fetch example_session ''Sent''"
    by (simp add: example_session_def)
  show ?thesis
    by (rule conjI [OF t [THEN conjunct1] mp [OF t [THEN conjunct2, THEN conjunct1] a]])
qed

subsection \<open>\<open>get_contacts\<close>\<close>

lemma collect_results_eq:
  "collect_results lib n items results =
     results @ map (export_entry lib)
       (filter (\<lambda>item. n \<le> sent_count (snd item) + received_count (snd item)) items)"
  by (induction items arbitrary: results) (simp_all add: Let_def)

lemma sort_reverse_mset: "mset (sort_reverse k xs) = mset xs"
  by (simp add: sort_reverse_def)

lemma sort_reverse_sorted: "sorted_wrt (\<lambda>a b. k b \<le> k a) (sort_reverse k xs)"
proof -
  have "sorted (map k (sort_key k (rev xs)))" by (rule sorted_sort_key)
  then have "sorted_wrt (\<lambda>x y. k x \<le> k y) (sort_key k (rev xs))" by (simp only: sorted_map)
  then show ?thesis unfolding sort_reverse_def sorted_wrt_rev .
qed

lemma sort_reverse_stable:
  "filter (\<lambda>x. k x = t) (sort_reverse k xs) = filter (\<lambda>x. k x = t) xs"
  by (simp add: sort_reverse_def sort_key_stable flip: rev_filter)

lemma total_export_entry:
  "total_interactions (export_entry lib item) = sent_count (snd item) + received_count (snd item)"
  "out_sent_count (export_entry lib item) = sent_count (snd item)"
  "out_received_count (export_entry lib item) = received_count (snd item)"
  "out_email (export_entry lib item) = fst item"
  by (simp_all add: export_entry_def Let_def)

text \<open>
  C3: \<open>get_contacts(N)\<close> returns one row for each entry of the dict whose two counts sum
  to at least \<open>N\<close> and no other row, in descending order of that sum, the rows of equal
  sum in the order in which the dict holds their entries.
\<close>

theorem get_contacts_ranked:
  "mset (get_contacts lib cs n) =
     mset (map (export_entry lib)
       (filter (\<lambda>item. n \<le> sent_count (snd item) + received_count (snd item)) cs))
   \<and> sorted_wrt (\<lambda>a b. total_interactions b \<le> total_interactions a) (get_contacts lib cs n)
   \<and> (\<forall>t. filter (\<lambda>r. total_interactions r = t) (get_contacts lib cs n) =
          map (export_entry lib)
            (filter (\<lambda>item. sent_count (snd item) + received_count (snd item) = t \<and> n \<le> t) cs))
   \<and> (\<forall>r \<in> set (get_contacts lib cs n).
          total_interactions r = out_sent_count r + out_received_count r
          \<and> n \<le> total_interactions r)"
proof -
  let ?q = "\<lambda>item. n \<le> sent_count (snd item) + received_count (snd item)"
  have g: "get_contacts lib cs n = sort_reverse total_interactions (map (export_entry lib) (filter ?q cs))"
    by (simp add: get_contacts_def collect_results_eq)
  have m: "mset (get_contacts lib cs n) = mset (map (export_entry lib) (filter ?q cs))"
    unfolding g by (rule sort_reverse_mset)
  have s: "sorted_wrt (\<lambda>a b. total_interactions b \<le> total_interactions a) (get_contacts lib cs n)"
    unfolding g by (rule sort_reverse_sorted)
  have st: "\<forall>t. filter (\<lambda>r. total_interactions r = t) (get_contacts lib cs n) =
          map (export_entry lib)
            (filter (\<lambda>item. sent_count (snd item) + received_count (snd item) = t \<and> n \<le> t) cs)"
  proof
    fix t
    let ?tot = "\<lambda>item. sent_count (snd item) + received_count (snd item)"
    have "filter (\<lambda>r. total_interactions r = t) (get_contacts lib cs n) =
          filter (\<lambda>r. total_interactions r = t) (map (export_entry lib) (filter ?q cs))"
      unfolding g by (rule sort_reverse_stable)
    also have "\<dots> = map (export_entry lib) (filter (\<lambda>item. ?tot item = t) (filter ?q cs))"
      by (simp only: filter_map o_def total_export_entry)
    also have "filter (\<lambda>item. ?tot item = t) (filter ?q cs) =
               filter (\<lambda>item. ?tot item = t \<and> n \<le> t) cs"
      unfolding filter_filter by (rule filter_cong) auto
    finally show "filter (\<lambda>r. total_interactions r = t) (get_contacts lib cs n) =
          map (export_entry lib)
            (filter (\<lambda>item. sent_count (snd item) + received_count (snd item) = t \<and> n \<le> t) cs)" .
  qed
  have b: "\<forall>r \<in> set (get_contacts lib cs n).
          total_interactions r = out_sent_count r + out_received_count r \<and> n \<le> total_interactions r"
  proof
    fix r assume "r \<in> set (get_contacts lib cs n)"
    then have "r \<in># mset (get_contacts lib cs n)" by simp
    then have "r \<in> set (map (export_entry lib) (filter ?q cs))" unfolding m by simp
    then show "total_interactions r = out_sent_count r + out_received_count r \<and> n \<le> total_interactions r"
      by (auto simp: total_export_entry)
  qed
  show ?thesis by (rule conjI [OF m conjI [OF s conjI [OF st b]]])
qed

theorem get_contacts_ranked_witness:
  "sorted_wrt (\<lambda>a b. total_interactions b \<le> total_interactions a)
     (get_contacts example_lib example_contacts 2)
   \<and> map out_email (get_contacts example_lib example_contacts 2) = [''c@x.com'', ''a@x.com'', ''d@x.com'']
   \<and> map total_interactions (get_contacts example_lib example_contacts 2) = [5, 2, 2]"
proof -
  have e: "map out_email (get_contacts example_lib example_contacts 2) = [''c@x.com'', ''a@x.com'', ''d@x.com'']"
    "map total_interactions (get_contacts example_lib example_contacts 2) = [5, 2, 2]"
    by (simp_all add: get_contacts_def example_contacts_def default_contact_def export_entry_def
        Let_def sort_reverse_def)
  have "sorted_wrt (\<lambda>a b. total_interactions b \<le> total_interactions a)
     (get_contacts example_lib example_contacts 2)"
    using get_contacts_ranked [of example_lib example_contacts 2] by (rule conjunct1 [OF conjunct2])
  then show ?thesis using e by simp
qed

end
